theory Spec2Isabelle
  imports Main
begin

section \<open>Conversation store (internal/context/store.go)\<close>

text \<open>
  Go strings are byte sequences and \<open>len\<close> counts bytes, so a Go string is a
  \<^typ>\<open>string\<close> (a list of 8-bit characters).  A \<open>time.Time\<close> is an integer number
  of nanoseconds; \<open>time.Now()\<close> is a parameter of every function that reads the clock.
  Go's \<open>int\<close> is 64 bits wide; the counters and lengths of a store stay far below
  \<open>2^63\<close>, so they are unbounded integers here.
\<close>

record Message =
  Role :: string
  Content :: string
  Timestamp :: int

record AnalysisCache =
  FileTree :: string
  ReadmeContent :: string
  PrimaryConfigs :: "string list"

record Metadata =
  TotalMessages :: int
  TotalTokensEstimate :: int
  PruneCount :: int

record Store =
  Version :: string
  Directory :: string
  CreatedAt :: int
  UpdatedAt :: int
  LastAnalysisAt :: "int option"
  AnalysisCache :: "AnalysisCache option"
  Messages :: "Message list"
  Metadata :: Metadata

definition NewStore :: "string \<Rightarrow> int \<Rightarrow> Store" where
  "NewStore directory now =
     \<lparr>Version = ''1'', Directory = directory, CreatedAt = now, UpdatedAt = now,
      LastAnalysisAt = None, AnalysisCache = None, Messages = [],
      Metadata = \<lparr>TotalMessages = 0, TotalTokensEstimate = 0, PruneCount = 0\<rparr>\<rparr>"

text \<open>\<open>EstimateTokens\<close>: the loop \<open>total += len(msg.Content) / 4\<close> over the messages.\<close>

definition EstimateTokens :: "Store \<Rightarrow> int" where
  "EstimateTokens s =
     foldl (\<lambda>total msg. total + int (length (Content msg)) div 4) 0 (Messages s)"

text \<open>\<open>AddMessage\<close>: append, then recompute both metadata fields from the new store.\<close>

definition AddMessage :: "string \<Rightarrow> string \<Rightarrow> int \<Rightarrow> Store \<Rightarrow> Store" where
  "AddMessage role content now s =
     (let msg = \<lparr>Role = role, Content = content, Timestamp = now\<rparr>;
          s1 = s\<lparr>Messages := Messages s @ [msg]\<rparr>;
          s2 = s1\<lparr>Metadata := (Metadata s1)\<lparr>TotalMessages := int (length (Messages s1))\<rparr>\<rparr>
      in s2\<lparr>Metadata := (Metadata s2)\<lparr>TotalTokensEstimate := EstimateTokens s2\<rparr>\<rparr>)"

definition Reset :: "Store \<Rightarrow> Store" where
  "Reset s =
     s\<lparr>Messages := [], AnalysisCache := None, LastAnalysisAt := None,
       Metadata := \<lparr>TotalMessages = 0, TotalTokensEstimate = 0,
                    PruneCount = PruneCount (Metadata s)\<rparr>\<rparr>"

text \<open>\<open>Save\<close> stamps the store and writes it out; the file system is outside the model.\<close>

definition Save :: "int \<Rightarrow> Store \<Rightarrow> Store" where
  "Save now s = s\<lparr>UpdatedAt := now\<rparr>"

text \<open>
  \<open>AnalyzeDirectory\<close> (analyzer.go): the directory scan is an external collaborator, so
  its outcome is a parameter; on success the cache and its time stamp are stored and
  nothing else changes.
\<close>

definition AnalyzeDirectory :: "string + AnalysisCache \<Rightarrow> int \<Rightarrow> Store \<Rightarrow> string + Store" where
  "AnalyzeDirectory scan now s =
     (case scan of
        Inl err \<Rightarrow> Inl err
      | Inr cache \<Rightarrow> Inr (s\<lparr>AnalysisCache := Some cache, LastAnalysisAt := Some now\<rparr>))"

section \<open>Pruner (internal/context/pruner.go)\<close>

record PruningLimits =
  MaxMessages :: int
  MaxTokens :: int
  MaxAgeDays :: int
  SoftMaxMessages :: int
  SoftMaxTokens :: int
  TargetMessages :: int
  TargetTokens :: int

definition DefaultPruningLimits :: PruningLimits where
  "DefaultPruningLimits =
     \<lparr>MaxMessages = 100, MaxTokens = 25000, MaxAgeDays = 30,
      SoftMaxMessages = 40, SoftMaxTokens = 15000,
      TargetMessages = 24, TargetTokens = 10000\<rparr>"

text \<open>
  A Go function here ends in one of three ways: it returns normally, it returns an
  \<open>error\<close>, or it panics.  The last two are the \<open>Inl\<close> side of a sum; \<open>isPanic\<close> tells
  them apart, because only an \<open>error\<close> can be caught by the caller's \<open>err != nil\<close>.
\<close>

datatype failure =
    RequestFailed string
  | ParseFailed string
  | AnalysisFailed string
  | SaveFailed string
  | SliceBoundsPanic
  | MakeSliceCapPanic

fun isPanic :: "failure \<Rightarrow> bool" where
  "isPanic (RequestFailed _) = False"
| "isPanic (ParseFailed _) = False"
| "isPanic (AnalysisFailed _) = False"
| "isPanic (SaveFailed _) = False"
| "isPanic SliceBoundsPanic = True"
| "isPanic MakeSliceCapPanic = True"

subsection \<open>removeMessagesByIndices\<close>

text \<open>The first loop: \<open>toRemove[idx] = true\<close> for every listed index.\<close>

definition buildToRemove :: "int list \<Rightarrow> (int \<Rightarrow> bool)" where
  "buildToRemove indices = foldl (\<lambda>toRemove idx. toRemove(idx := True)) (\<lambda>_. False) indices"

text \<open>
  The second loop: \<open>for i, msg := range Messages\<close>, appending \<open>msg\<close> to \<open>newMessages\<close>
  unless \<open>toRemove[i]\<close>.
\<close>

fun keepLoop :: "(int \<Rightarrow> bool) \<Rightarrow> nat \<Rightarrow> Message list \<Rightarrow> Message list \<Rightarrow> Message list" where
  "keepLoop toRemove i newMessages [] = newMessages"
| "keepLoop toRemove i newMessages (msg # rest) =
     keepLoop toRemove (Suc i)
       (if \<not> toRemove (int i) then newMessages @ [msg] else newMessages) rest"

text \<open>
  \<open>make([]Message, 0, len(Messages) - len(indices))\<close> panics when the capacity is
  negative; otherwise the store's messages are replaced by the survivors.
\<close>

definition removeMessagesByIndices :: "int list \<Rightarrow> Store \<Rightarrow> failure + Store" where
  "removeMessagesByIndices indices s =
     (if int (length (Messages s)) - int (length indices) < 0 then Inl MakeSliceCapPanic
      else Inr (s\<lparr>Messages := keepLoop (buildToRemove indices) 0 [] (Messages s)\<rparr>))"

subsection \<open>pruneHard\<close>

text \<open>
  The loop \<open>for startIdx < len(Messages) && Messages[startIdx].Role == "system"\<close>,
  started at \<open>startIdx = 0\<close>.
\<close>

function skipSystem :: "Message list \<Rightarrow> nat \<Rightarrow> nat" where
  "skipSystem msgs startIdx =
     (if startIdx < length msgs \<and> Role (msgs ! startIdx) = ''system''
      then skipSystem msgs (Suc startIdx) else startIdx)"
  by pat_completeness auto
termination
  by (relation "measure (\<lambda>(msgs, startIdx). length msgs - startIdx)") auto

declare skipSystem.simps [simp del]

text \<open>
  \<open>pruneHard\<close>.  \<open>make([]Message, 0, TargetMessages)\<close> panics on a negative capacity and
  the slice expression \<open>Messages[startIdx+toRemove:]\<close> panics when its lower bound
  exceeds the length.  The store is only written after both, so a panic leaves no
  partly updated store behind.
\<close>

definition pruneHard :: "PruningLimits \<Rightarrow> Store \<Rightarrow> failure + Store" where
  "pruneHard limits s =
     (let n = int (length (Messages s)) in
      if n \<le> TargetMessages limits then Inr s
      else
        let toRemove0 = n - TargetMessages limits;
            toRemove = (if toRemove0 \<ge> n - 4 then n - 4 else toRemove0)
        in
          if toRemove \<le> 0 then Inr s
          else if TargetMessages limits < 0 then Inl MakeSliceCapPanic
          else
            let startIdx = int (skipSystem (Messages s) 0) in
              if startIdx + toRemove > n then Inl SliceBoundsPanic
              else
                let preserved = drop (nat (startIdx + toRemove)) (Messages s);
                    s1 = s\<lparr>Messages := preserved\<rparr>;
                    s2 = s1\<lparr>Metadata := (Metadata s1)\<lparr>PruneCount := PruneCount (Metadata s1) + 1\<rparr>\<rparr>;
                    s3 = s2\<lparr>Metadata := (Metadata s2)\<lparr>TotalMessages := int (length (Messages s2))\<rparr>\<rparr>
                in Inr (s3\<lparr>Metadata := (Metadata s3)\<lparr>TotalTokensEstimate := EstimateTokens s3\<rparr>\<rparr>))"

subsection \<open>ShouldPrune and canUseAIPruning\<close>

text \<open>
  The reason returned by \<open>ShouldPrune\<close> is a text formatted from the branch taken and
  two numbers; the model keeps the branch and the numbers.  The age is
  \<open>time.Since(oldest)\<close> in nanoseconds and the bound is
  \<open>time.Duration(MaxAgeDays) * 24 * time.Hour\<close>.  (\<open>time.Since\<close> saturates at about
  292 years; under the default bound of 30 days the comparison comes out the same.)
\<close>

datatype pruneReason =
    HardMessages int int
  | HardTokens int int
  | HardAge int int
  | SoftMessages int int
  | SoftTokens int int
  | NoReason

definition nanosPerHour :: int where
  "nanosPerHour = 3600000000000"

definition softLimits :: "PruningLimits \<Rightarrow> int \<Rightarrow> int \<Rightarrow> bool \<times> pruneReason" where
  "softLimits limits n tokens =
     (if n \<ge> SoftMaxMessages limits then (True, SoftMessages n (SoftMaxMessages limits))
      else if tokens \<ge> SoftMaxTokens limits then (True, SoftTokens tokens (SoftMaxTokens limits))
      else (False, NoReason))"

definition ShouldPrune :: "PruningLimits \<Rightarrow> int \<Rightarrow> Store \<Rightarrow> bool \<times> pruneReason" where
  "ShouldPrune limits now s =
     (let n = int (length (Messages s)) in
      if n \<ge> MaxMessages limits then (True, HardMessages n (MaxMessages limits))
      else
        let tokens = EstimateTokens s in
          if tokens \<ge> MaxTokens limits then (True, HardTokens tokens (MaxTokens limits))
          else
            (case Messages s of
               [] \<Rightarrow> softLimits limits n tokens
             | oldest # _ \<Rightarrow>
                 let age = now - Timestamp oldest in
                   if age > MaxAgeDays limits * 24 * nanosPerHour
                   then (True, HardAge age (MaxAgeDays limits))
                   else softLimits limits n tokens))"

definition canUseAIPruning :: "PruningLimits \<Rightarrow> Store \<Rightarrow> bool" where
  "canUseAIPruning limits s =
     (if int (length (Messages s)) < 10 then False
      else if int (length (Messages s)) \<ge> MaxMessages limits then False
      else if EstimateTokens s \<ge> MaxTokens limits then False
      else True)"

subsection \<open>The adaptive strategy\<close>

text \<open>
  \<open>buildPruningPrompt\<close> formats a fixed text around the reason, the message count, the
  size estimate, the two targets and a transcript; the model keeps these components.
  The transcript loop skips system messages and cuts a content longer than 200 bytes to
  its first 200 bytes followed by three dots.
\<close>

record PruningPrompt =
  promptReason :: pruneReason
  promptTotalMessages :: int
  promptTokens :: int
  promptTargetTokens :: int
  promptTargetMessages :: int
  promptSummary :: "(nat \<times> string \<times> string) list"

fun summaryLoop :: "nat \<Rightarrow> Message list \<Rightarrow> (nat \<times> string \<times> string) list" where
  "summaryLoop i [] = []"
| "summaryLoop i (msg # rest) =
     (if Role msg = ''system'' then summaryLoop (Suc i) rest
      else
        (i, Role msg,
         if length (Content msg) > 200 then take 200 (Content msg) @ ''...'' else Content msg)
        # summaryLoop (Suc i) rest)"

definition buildPruningPrompt :: "PruningLimits \<Rightarrow> pruneReason \<Rightarrow> Store \<Rightarrow> PruningPrompt" where
  "buildPruningPrompt limits reason s =
     \<lparr>promptReason = reason,
      promptTotalMessages = int (length (Messages s)),
      promptTokens = EstimateTokens s,
      promptTargetTokens = TargetTokens limits,
      promptTargetMessages = TargetMessages limits,
      promptSummary = summaryLoop 0 (Messages s)\<rparr>"

text \<open>
  What the pruner takes from outside the repository: the generation service
  (\<open>client.ChatCompletion\<close>, called with the prompt as its single system message, giving
  a response or an error text), and three functions of Go's standard library:
  \<open>strings.TrimSpace\<close>, \<open>json.Unmarshal\<close> into an \<open>[]int\<close>, and the Unicode part of
  \<open>strings.ToLower\<close>.  They are parameters, so every theorem holds for any behaviour
  of theirs.
\<close>

type_synonym Client = "PruningPrompt \<Rightarrow> string + string"

record Stdlib =
  TrimSpace :: "string \<Rightarrow> string"
  UnmarshalInts :: "string \<Rightarrow> string + int list"
  UnicodeToLower :: "string \<Rightarrow> string"

definition HasPrefix :: "string \<Rightarrow> string \<Rightarrow> bool" where
  "HasPrefix s prefix = (length s \<ge> length prefix \<and> take (length prefix) s = prefix)"

definition TrimPrefix :: "string \<Rightarrow> string \<Rightarrow> string" where
  "TrimPrefix s prefix = (if HasPrefix s prefix then drop (length prefix) s else s)"

definition HasSuffix :: "string \<Rightarrow> string \<Rightarrow> bool" where
  "HasSuffix s suffix =
     (length s \<ge> length suffix \<and> drop (length s - length suffix) s = suffix)"

definition TrimSuffix :: "string \<Rightarrow> string \<Rightarrow> string" where
  "TrimSuffix s suffix =
     (if HasSuffix s suffix then take (length s - length suffix) s else s)"

definition fence :: string where
  "fence = [CHR 0x60, CHR 0x60, CHR 0x60]"

definition parsePruningResponse :: "Stdlib \<Rightarrow> string \<Rightarrow> string + int list" where
  "parsePruningResponse lib response =
     (let r1 = TrimSpace lib response;
          r2 = TrimPrefix r1 (fence @ ''json'');
          r3 = TrimPrefix r2 fence;
          r4 = TrimSuffix r3 fence;
          r5 = TrimSpace lib r4
      in case UnmarshalInts lib r5 of
           Inl err \<Rightarrow> Inl err
         | Inr indices \<Rightarrow> Inr indices)"

definition pruneWithAI ::
  "Stdlib \<Rightarrow> PruningLimits \<Rightarrow> Client \<Rightarrow> pruneReason \<Rightarrow> Store \<Rightarrow> failure + Store" where
  "pruneWithAI lib limits client reason s =
     (case client (buildPruningPrompt limits reason s) of
        Inl err \<Rightarrow> Inl (RequestFailed err)
      | Inr response \<Rightarrow>
          (case parsePruningResponse lib response of
             Inl err \<Rightarrow> Inl (ParseFailed err)
           | Inr indices \<Rightarrow>
               if length indices > 0 then
                 (case removeMessagesByIndices indices s of
                    Inl p \<Rightarrow> Inl p
                  | Inr s1 \<Rightarrow>
                      let s2 = s1\<lparr>Metadata := (Metadata s1)\<lparr>PruneCount := PruneCount (Metadata s1) + 1\<rparr>\<rparr>;
                          s3 = s2\<lparr>Metadata := (Metadata s2)\<lparr>TotalMessages := int (length (Messages s2))\<rparr>\<rparr>
                      in Inr (s3\<lparr>Metadata := (Metadata s3)\<lparr>TotalTokensEstimate := EstimateTokens s3\<rparr>\<rparr>))
               else Inr s))"

subsection \<open>Prune\<close>

text \<open>
  \<open>Prune\<close>: an \<open>error\<close> of the adaptive attempt is caught and answered with
  \<open>pruneHard\<close>; a panic is not an \<open>error\<close> and passes through.
\<close>

definition Prune ::
  "Stdlib \<Rightarrow> PruningLimits \<Rightarrow> Client option \<Rightarrow> int \<Rightarrow> Store \<Rightarrow> failure + Store" where
  "Prune lib limits client now s =
     (case ShouldPrune limits now s of
        (shouldPrune, reason) \<Rightarrow>
          if \<not> shouldPrune then Inr s
          else
            (case client of
               Some c \<Rightarrow>
                 if canUseAIPruning limits s then
                   (case pruneWithAI lib limits c reason s of
                      Inl err \<Rightarrow> if isPanic err then Inl err else pruneHard limits s
                    | Inr s' \<Rightarrow> Inr s')
                 else pruneHard limits s
             | None \<Rightarrow> pruneHard limits s))"

subsection \<open>ShouldPreserve\<close>

text \<open>
  \<open>strings.Contains\<close> on bytes: the substring starts at some position of the string.
  \<open>strings.ToLower\<close>: a string of ASCII bytes only has its letters \<open>A\<close> to \<open>Z\<close>
  moved by \<open>'a' - 'A'\<close>, byte by byte; any other string goes through the Unicode
  tables of the standard library.
\<close>

fun Contains :: "string \<Rightarrow> string \<Rightarrow> bool" where
  "Contains [] substr = (substr = [])"
| "Contains (c # cs) substr = (HasPrefix (c # cs) substr \<or> Contains cs substr)"

definition isUpperASCII :: "char \<Rightarrow> bool" where
  "isUpperASCII c = (65 \<le> (of_char c :: nat) \<and> (of_char c :: nat) \<le> 90)"

definition lowerASCII :: "char \<Rightarrow> char" where
  "lowerASCII c = (if isUpperASCII c then char_of ((of_char c :: nat) + 32) else c)"

definition ToLower :: "Stdlib \<Rightarrow> string \<Rightarrow> string" where
  "ToLower lib s =
     (if list_all (\<lambda>c. (of_char c :: nat) < 128) s then map lowerASCII s
      else UnicodeToLower lib s)"

definition preserveKeywords :: "string list" where
  "preserveKeywords = [''analysis'', ''file tree'', ''README'', ''structure'', ''architecture'']"

fun keywordLoop :: "string \<Rightarrow> string list \<Rightarrow> bool" where
  "keywordLoop content [] = False"
| "keywordLoop content (keyword # rest) =
     (if Contains content keyword then True else keywordLoop content rest)"

definition ShouldPreserve :: "Stdlib \<Rightarrow> Store \<Rightarrow> Message \<Rightarrow> int \<Rightarrow> bool" where
  "ShouldPreserve lib s msg index =
     (if index \<ge> int (length (Messages s)) - 4 then True
      else if Contains (Content msg) fence then True
      else keywordLoop (ToLower lib (Content msg)) preserveKeywords)"

section \<open>Manager: the emergency guard and the query cycle\<close>

text \<open>
  \<open>estimateAnalysisCacheTokens\<close> computes \<open>int(float64(len) / 3.5)\<close>.  For a length
  below \<open>2^50\<close> the rounded quotient has the same integer part as the exact one, which
  is \<open>2 * len div 7\<close>.
\<close>

definition estimateAnalysisCacheTokens :: "Store \<Rightarrow> int" where
  "estimateAnalysisCacheTokens s =
     (case AnalysisCache s of
        None \<Rightarrow> 0
      | Some cache \<Rightarrow>
          (2 * int (length (FileTree cache))) div 7
          + (2 * int (length (ReadmeContent cache))) div 7
          + int (length (PrimaryConfigs cache)) * 2)"

definition emergencyTokens :: int where
  "emergencyTokens = 37500"

definition emergencyMessages :: int where
  "emergencyMessages = 150"

text \<open>
  \<open>checkEmergencyPrune\<close>.  The source writes the condition
  \<open>tokens > emergencyTokens || messages > emergencyMessages\<close> at both of its checks;
  it is \<open>overEmergency\<close> here.  The pruner created with \<open>NewPruner\<close> carries
  \<open>DefaultPruningLimits\<close>.
\<close>

definition overEmergency :: "int \<Rightarrow> int \<Rightarrow> bool" where
  "overEmergency tokens messages =
     (tokens > emergencyTokens \<or> messages > emergencyMessages)"

definition checkEmergencyPrune :: "Store \<Rightarrow> failure + Store" where
  "checkEmergencyPrune s =
     (let tokens = EstimateTokens s;
          messages = int (length (Messages s))
      in
        if overEmergency tokens messages then
          (case (case AnalysisCache s of
                   None \<Rightarrow> (s, tokens)
                 | Some _ \<Rightarrow>
                     let analysisTokens = estimateAnalysisCacheTokens s in
                       if analysisTokens > tokens div 2 then
                         (let s1 = s\<lparr>AnalysisCache := None, LastAnalysisAt := None\<rparr>
                          in (s1, EstimateTokens s1))
                       else (s, tokens)) of
             (s2, tokens2) \<Rightarrow>
               if overEmergency tokens2 messages
               then pruneHard DefaultPruningLimits s2
               else Inr s2)
        else Inr s)"

text \<open>
  \<open>checkAndPrune\<close> reads the clock once in its own \<open>ShouldPrune\<close> and once more inside
  \<open>Prune\<close>.
\<close>

definition checkAndPrune :: "Stdlib \<Rightarrow> Client option \<Rightarrow> int \<Rightarrow> int \<Rightarrow> Store \<Rightarrow> failure + Store" where
  "checkAndPrune lib client now now' s =
     (if \<not> fst (ShouldPrune DefaultPruningLimits now s) then Inr s
      else Prune lib DefaultPruningLimits client now' s)"

text \<open>\<open>Manager.Analyze\<close>, up to the save that follows it.\<close>

definition Analyze :: "string + AnalysisCache \<Rightarrow> int \<Rightarrow> Store \<Rightarrow> failure + Store" where
  "Analyze scan now s =
     (case AnalyzeDirectory scan now s of
        Inl err \<Rightarrow> Inl (AnalysisFailed err)
      | Inr s' \<Rightarrow> Inr s')"

text \<open>
  \<open>Manager.Query\<close>.  The generation service answers the outbound request, which is
  built from the store as it is after the user's message was appended; its answer (a
  response or an error text) is the parameter \<open>respond\<close>.  Writing the file can fail;
  \<open>persist\<close> gives the error text if it does.  The five clock readings of one query
  are the record \<open>QueryClock\<close>.  A failure of the guard or of \<open>checkAndPrune\<close> that is
  an \<open>error\<close> is printed as a warning and the query goes on; a panic ends it.
\<close>

record QueryClock =
  atUserMessage :: int
  atAssistantMessage :: int
  atShouldPrune :: int
  atPrune :: int
  atSave :: int

definition warnOnly :: "Store \<Rightarrow> failure + Store \<Rightarrow> failure + Store" where
  "warnOnly s outcome =
     (case outcome of
        Inl err \<Rightarrow> if isPanic err then Inl err else Inr s
      | Inr s' \<Rightarrow> Inr s')"

definition Query ::
  "Stdlib \<Rightarrow> Client option \<Rightarrow> (Store \<Rightarrow> string + string) \<Rightarrow> (Store \<Rightarrow> string option)
   \<Rightarrow> QueryClock \<Rightarrow> string \<Rightarrow> Store \<Rightarrow> failure + string \<times> Store" where
  "Query lib client respond persist clock userQuery s =
     (case warnOnly s (checkEmergencyPrune s) of
        Inl p \<Rightarrow> Inl p
      | Inr s1 \<Rightarrow>
          let s2 = AddMessage ''user'' userQuery (atUserMessage clock) s1 in
            (case respond s2 of
               Inl err \<Rightarrow> Inl (RequestFailed err)
             | Inr response \<Rightarrow>
                 let s3 = AddMessage ''assistant'' response (atAssistantMessage clock) s2 in
                   (case warnOnly s3 (checkEmergencyPrune s3) of
                      Inl p \<Rightarrow> Inl p
                    | Inr s4 \<Rightarrow>
                        (case warnOnly s4
                                (checkAndPrune lib client (atShouldPrune clock) (atPrune clock) s4) of
                           Inl p \<Rightarrow> Inl p
                         | Inr s5 \<Rightarrow>
                             let s6 = Save (atSave clock) s5 in
                               (case persist s6 of
                                  Some err \<Rightarrow> Inl (SaveFailed err)
                                | None \<Rightarrow> Inr (response, s6))))))"

text \<open>
  The mutations a manager applies to its store between loading and saving it.  A step
  that ends in a failure has no successor store.
\<close>

datatype mutation =
    DoAddMessage string string int
  | DoPruneHard
  | DoPruneWithAI Stdlib Client pruneReason
  | DoPrune Stdlib "Client option" int
  | DoCheckAndPrune Stdlib "Client option" int int
  | DoCheckEmergencyPrune
  | DoAnalyze "string + AnalysisCache" int
  | DoReset
  | DoSave int

fun applyMutation :: "mutation \<Rightarrow> Store \<Rightarrow> failure + Store" where
  "applyMutation (DoAddMessage role content now) s = Inr (AddMessage role content now s)"
| "applyMutation DoPruneHard s = pruneHard DefaultPruningLimits s"
| "applyMutation (DoPruneWithAI lib client reason) s =
     pruneWithAI lib DefaultPruningLimits client reason s"
| "applyMutation (DoPrune lib client now) s = Prune lib DefaultPruningLimits client now s"
| "applyMutation (DoCheckAndPrune lib client now now') s = checkAndPrune lib client now now' s"
| "applyMutation DoCheckEmergencyPrune s = checkEmergencyPrune s"
| "applyMutation (DoAnalyze scan now) s = Analyze scan now s"
| "applyMutation DoReset s = Inr (Reset s)"
| "applyMutation (DoSave now) s = Inr (Save now s)"

text \<open>
  The stores a manager can hold: a new store, or a store obtained from one of these by
  a mutation.  (\<open>Load\<close> gives back a store that an earlier \<open>Save\<close> wrote.)
\<close>

inductive reachable :: "Store \<Rightarrow> bool" where
  fresh: "reachable (NewStore directory now)"
| step: "reachable s \<Longrightarrow> applyMutation m s = Inr s' \<Longrightarrow> reachable s'"

section \<open>Notions used in the statements, and example inputs\<close>

text \<open>The value the loop of \<open>EstimateTokens\<close> computes, as a sum over the messages.\<close>

definition tokensOf :: "Message list \<Rightarrow> int" where
  "tokensOf msgs = sum_list (map (\<lambda>msg. int (length (Content msg)) div 4) msgs)"

text \<open>
  The store \<open>pruneHard\<close> writes under the default limits when it cuts: everything
  before position \<open>startIdx + (len - 24)\<close> is gone, the counters are recomputed.
\<close>

definition hardPruned :: "Store \<Rightarrow> Store" where
  "hardPruned s =
     (let kept = drop (skipSystem (Messages s) 0 + (length (Messages s) - 24)) (Messages s)
      in s\<lparr>Messages := kept,
           Metadata := \<lparr>TotalMessages = int (length kept),
                         TotalTokensEstimate = tokensOf kept,
                         PruneCount = PruneCount (Metadata s) + 1\<rparr>\<rparr>)"

text \<open>The two metadata fields agree with the messages.\<close>

definition inSync :: "Store \<Rightarrow> bool" where
  "inSync s \<longleftrightarrow>
     TotalMessages (Metadata s) = int (length (Messages s))
     \<and> TotalTokensEstimate (Metadata s) = EstimateTokens s"

text \<open>A prune event was recorded between \<open>s\<close> and \<open>s'\<close>.\<close>

definition pruned :: "Store \<Rightarrow> Store \<Rightarrow> bool" where
  "pruned s s' \<longleftrightarrow>
     TotalMessages (Metadata s') = int (length (Messages s'))
     \<and> PruneCount (Metadata s') = PruneCount (Metadata s) + 1"

text \<open>
  Whether a run of \<open>Prune\<close> (under the default limits, on a store that \<open>ShouldPrune\<close>
  accepts) reaches the statements that rewrite the store: on the deterministic path the
  store must hold more than \<open>TargetMessages\<close> messages; on the adaptive path the
  parsed index list must be non-empty; a failed adaptive attempt is the deterministic
  path.
\<close>

definition pruneRewrites :: "Stdlib \<Rightarrow> Client option \<Rightarrow> int \<Rightarrow> Store \<Rightarrow> bool" where
  "pruneRewrites lib client now s =
     (let limits = DefaultPruningLimits;
          overTarget = (TargetMessages limits < int (length (Messages s)))
      in case client of
           None \<Rightarrow> overTarget
         | Some c \<Rightarrow>
             if canUseAIPruning limits s then
               (case c (buildPruningPrompt limits (snd (ShouldPrune limits now s)) s) of
                  Inl _ \<Rightarrow> overTarget
                | Inr response \<Rightarrow>
                    (case parsePruningResponse lib response of
                       Inl _ \<Rightarrow> overTarget
                     | Inr indices \<Rightarrow> indices \<noteq> []))
             else overTarget)"

subsection \<open>Example inputs\<close>

definition systemMessage :: Message where
  "systemMessage = \<lparr>Role = ''system'', Content = ''You are a helpful assistant.'', Timestamp = 0\<rparr>"

text \<open>The \<open>i\<close>-th question of a conversation; the time stamp tells the questions apart.\<close>

definition question :: "nat \<Rightarrow> Message" where
  "question i = \<lparr>Role = ''user'', Content = ''question'', Timestamp = int i\<rparr>"

definition hugeMessage :: Message where
  "hugeMessage = \<lparr>Role = ''user'', Content = replicate 150004 CHR ''x'', Timestamp = 0\<rparr>"

definition bigCache :: AnalysisCache where
  "bigCache = \<lparr>FileTree = replicate 80000 CHR ''f'', ReadmeContent = [], PrimaryConfigs = [''go.mod'']\<rparr>"

text \<open>
  A snapshot of the sizes used by \<open>TestEmergencyPruneWithHugeAnalysisCache\<close>: a file
  tree of 260000 bytes, a README of 115000 bytes and two configuration files.
\<close>

definition testCache :: AnalysisCache where
  "testCache =
     \<lparr>FileTree = replicate 260000 CHR ''f'', ReadmeContent = replicate 115000 CHR ''r'',
      PrimaryConfigs = [''go.mod'', ''package.json'']\<rparr>"

text \<open>A store holding the given messages, with its metadata in agreement.\<close>

definition storeOf :: "Message list \<Rightarrow> Store" where
  "storeOf msgs =
     \<lparr>Version = ''1'', Directory = ''/test/dir'', CreatedAt = 0, UpdatedAt = 0,
      LastAnalysisAt = None, AnalysisCache = None, Messages = msgs,
      Metadata = \<lparr>TotalMessages = int (length msgs), TotalTokensEstimate = tokensOf msgs,
                   PruneCount = 0\<rparr>\<rparr>"

definition withCache :: "AnalysisCache \<Rightarrow> Store \<Rightarrow> Store" where
  "withCache cache s = s\<lparr>AnalysisCache := Some cache, LastAnalysisAt := Some 0\<rparr>"

text \<open>
  A stand-in for the standard library: it trims nothing, decodes the one text
  \<open>[0, 1]\<close> and rejects every other, and leaves non-ASCII text alone.
\<close>

definition exampleLib :: Stdlib where
  "exampleLib =
     \<lparr>TrimSpace = (\<lambda>text. text),
      UnmarshalInts = (\<lambda>text. if text = ''[0, 1]'' then Inr [0, 1] else Inl ''invalid character''),
      UnicodeToLower = (\<lambda>text. text)\<rparr>"

definition answeringClient :: Client where
  "answeringClient = (\<lambda>prompt. Inr ''[0, 1]'')"

definition failingClient :: Client where
  "failingClient = (\<lambda>prompt. Inl ''connection refused'')"

definition babblingClient :: Client where
  "babblingClient = (\<lambda>prompt. Inr ''not json'')"

definition thirtyOneDays :: int where
  "thirtyOneDays = 31 * 24 * nanosPerHour"

definition exampleClock :: QueryClock where
  "exampleClock =
     \<lparr>atUserMessage = 100, atAssistantMessage = 101, atShouldPrune = 102, atPrune = 103,
      atSave = 104\<rparr>"


section \<open>The size estimate\<close>

lemma foldl_tokens:
  "foldl (\<lambda>total msg. total + int (length (Content msg)) div 4) a msgs
     = a + sum_list (map (\<lambda>msg. int (length (Content msg)) div 4) msgs)"
  by (induction msgs arbitrary: a) auto

lemma EstimateTokens_tokensOf: "EstimateTokens s = tokensOf (Messages s)"
  by (simp add: EstimateTokens_def tokensOf_def foldl_tokens)

lemma tokensOf_nonneg: "0 \<le> tokensOf msgs"
  by (induction msgs) (auto simp: tokensOf_def)

lemma tokensOf_append: "tokensOf (xs @ ys) = tokensOf xs + tokensOf ys"
  by (simp add: tokensOf_def)

lemma tokensOf_drop: "tokensOf (drop k msgs) \<le> tokensOf msgs"
proof -
  have "tokensOf msgs = tokensOf (take k msgs) + tokensOf (drop k msgs)"
    by (metis append_take_drop_id tokensOf_append)
  then show ?thesis
    using tokensOf_nonneg [of "take k msgs"] by linarith
qed

lemma tokensOf_replicate:
  "tokensOf (replicate n m) = int n * (int (length (Content m)) div 4)"
  by (simp add: tokensOf_def sum_list_replicate)

section \<open>The leading run of system messages\<close>

lemma skipSystem_from:
  "startIdx \<le> length msgs \<Longrightarrow>
   skipSystem msgs startIdx
     = startIdx + length (takeWhile (\<lambda>m. Role m = ''system'') (drop startIdx msgs))"
proof (induction msgs startIdx rule: skipSystem.induct)
  case (1 msgs startIdx)
  show ?case
  proof (cases "startIdx < length msgs \<and> Role (msgs ! startIdx) = ''system''")
    case True
    then have d: "drop startIdx msgs = msgs ! startIdx # drop (Suc startIdx) msgs"
      by (simp add: Cons_nth_drop_Suc)
    have "skipSystem msgs startIdx = skipSystem msgs (Suc startIdx)"
      using True by (subst skipSystem.simps) simp
    also have "\<dots> = Suc startIdx
        + length (takeWhile (\<lambda>m. Role m = ''system'') (drop (Suc startIdx) msgs))"
      using "1.IH" True by simp
    finally show ?thesis
      using True d by simp
  next
    case False
    have stop: "skipSystem msgs startIdx = startIdx"
      using False by (subst skipSystem.simps) auto
    show ?thesis
    proof (cases "startIdx < length msgs")
      case True
      then have "drop startIdx msgs = msgs ! startIdx # drop (Suc startIdx) msgs"
        by (simp add: Cons_nth_drop_Suc)
      then show ?thesis
        using False True stop by simp
    next
      case False
      then show ?thesis
        using stop "1.prems" by simp
    qed
  qed
qed

lemma skipSystem_takeWhile:
  "skipSystem msgs 0 = length (takeWhile (\<lambda>m. Role m = ''system'') msgs)"
  using skipSystem_from [of 0 msgs] by simp

lemma skipSystem_le: "skipSystem msgs 0 \<le> length msgs"
  by (simp add: skipSystem_takeWhile length_takeWhile_le)

lemma skipSystem_replicate_other:
  "Role m \<noteq> ''system'' \<Longrightarrow> skipSystem (replicate n m) 0 = 0"
  by (simp add: skipSystem_takeWhile takeWhile_replicate)

section \<open>Substrings\<close>

lemma HasPrefix_iff: "HasPrefix s prefix \<longleftrightarrow> (\<exists>rest. s = prefix @ rest)"
proof
  assume "HasPrefix s prefix"
  then have "s = prefix @ drop (length prefix) s"
    by (metis HasPrefix_def append_take_drop_id)
  then show "\<exists>rest. s = prefix @ rest" ..
next
  assume "\<exists>rest. s = prefix @ rest"
  then show "HasPrefix s prefix"
    by (auto simp: HasPrefix_def)
qed

text \<open>
  \<open>Contains\<close> is the substring relation.
\<close>

lemma Contains_iff: "Contains s substr \<longleftrightarrow> (\<exists>before after. s = before @ substr @ after)"
proof (induction s)
  case Nil
  then show ?case by auto
next
  case (Cons c cs)
  show ?case
  proof
    assume "Contains (c # cs) substr"
    then consider "HasPrefix (c # cs) substr" | "Contains cs substr" by auto
    then show "\<exists>before after. c # cs = before @ substr @ after"
    proof cases
      case 1
      then obtain rest where "c # cs = substr @ rest"
        by (auto simp: HasPrefix_iff)
      then have "c # cs = [] @ substr @ rest" by simp
      then show ?thesis by blast
    next
      case 2
      then obtain before after where "cs = before @ substr @ after"
        using Cons.IH by blast
      then have "c # cs = (c # before) @ substr @ after" by simp
      then show ?thesis by blast
    qed
  next
    assume "\<exists>before after. c # cs = before @ substr @ after"
    then obtain before after where eq: "c # cs = before @ substr @ after" by blast
    show "Contains (c # cs) substr"
    proof (cases before)
      case Nil
      then have "HasPrefix (c # cs) substr"
        using eq by (auto simp: HasPrefix_iff)
      then show ?thesis by simp
    next
      case (Cons b bs)
      then have "cs = bs @ substr @ after"
        using eq by simp
      then have "Contains cs substr"
        using Cons.IH by blast
      then show ?thesis by simp
    qed
  qed
qed

lemma HasPrefix_head: "HasPrefix s (p # ps) \<Longrightarrow> p \<in> set s"
  by (cases s) (auto simp: HasPrefix_def)

lemma Contains_head: "Contains s (p # ps) \<Longrightarrow> p \<in> set s"
  by (induction s) (auto dest: HasPrefix_head)

lemma lowerASCII_not_upper: "\<not> isUpperASCII (lowerASCII c)"
proof (cases "isUpperASCII c")
  case True
  then have "(of_char c :: nat) + 32 < 256"
    by (simp add: isUpperASCII_def)
  then have "of_char (char_of ((of_char c :: nat) + 32)) = (of_char c :: nat) + 32"
    by (simp add: of_char_of)
  then show ?thesis
    using True by (simp add: lowerASCII_def isUpperASCII_def)
next
  case False
  then show ?thesis by (simp add: lowerASCII_def)
qed

text \<open>
  The lowered form of an ASCII text holds no capital letter, so the keyword \<open>README\<close>
  is never found in it.
\<close>

lemma README_never_found: "\<not> Contains (map lowerASCII s) ''README''"
proof
  assume "Contains (map lowerASCII s) ''README''"
  then have "CHR ''R'' \<in> set (map lowerASCII s)"
    by (rule Contains_head)
  then obtain c where "lowerASCII c = CHR ''R''" by auto
  moreover have "isUpperASCII CHR ''R''" by (simp add: isUpperASCII_def)
  ultimately show False
    using lowerASCII_not_upper [of c] by simp
qed

section \<open>pruneHard under the default limits\<close>

lemma pruneHard_small:
  "length (Messages s) \<le> 24 \<Longrightarrow> pruneHard DefaultPruningLimits s = Inr s"
  by (simp add: pruneHard_def DefaultPruningLimits_def)

lemma pruneHard_panic:
  "24 < length (Messages s) \<Longrightarrow> 24 < skipSystem (Messages s) 0 \<Longrightarrow>
   pruneHard DefaultPruningLimits s = Inl SliceBoundsPanic"
  by (simp add: pruneHard_def DefaultPruningLimits_def Let_def)

lemma pruneHard_cut:
  assumes "24 < length (Messages s)" and "skipSystem (Messages s) 0 \<le> 24"
  shows "pruneHard DefaultPruningLimits s = Inr (hardPruned s)"
proof -
  let ?n = "int (length (Messages s))"
  let ?k = "int (skipSystem (Messages s) 0)"
  have cut: "nat (?k + (?n - 24)) = skipSystem (Messages s) 0 + (length (Messages s) - 24)"
    using assms by simp
  have "\<not> ?n \<le> 24" "\<not> ?n - 24 \<ge> ?n - 4" "\<not> ?n - 24 \<le> 0" "\<not> ?k + (?n - 24) > ?n"
    using assms by simp_all
  then show ?thesis
    unfolding pruneHard_def hardPruned_def
    by (simp add: DefaultPruningLimits_def Let_def cut EstimateTokens_tokensOf)
qed

text \<open>
  The three outcomes of \<open>pruneHard\<close> under the default limits: nothing to do, a
  slice bound beyond the end, or the cut.
\<close>

lemma pruneHard_cases:
  "pruneHard DefaultPruningLimits s =
     (if length (Messages s) \<le> 24 then Inr s
      else if 24 < skipSystem (Messages s) 0 then Inl SliceBoundsPanic
      else Inr (hardPruned s))"
  using pruneHard_small [of s] pruneHard_panic [of s] pruneHard_cut [of s]
  by (simp add: not_le)

lemma pruneHard_never_grows:
  "pruneHard limits s = Inr s' \<Longrightarrow> length (Messages s') \<le> length (Messages s)"
  by (auto simp: pruneHard_def Let_def split: if_splits)

lemma pruneHard_no_error: "pruneHard limits s = Inl e \<Longrightarrow> isPanic e"
  by (auto simp: pruneHard_def Let_def split: if_splits)

lemma EstimateTokens_hardPruned: "EstimateTokens (hardPruned s) \<le> EstimateTokens s"
  by (simp add: hardPruned_def Let_def EstimateTokens_tokensOf tokensOf_drop)

lemma pruned_hardPruned: "pruned s (hardPruned s)"
  by (simp add: pruned_def hardPruned_def Let_def)

lemma pruneHard_outcome:
  "pruneHard DefaultPruningLimits s = Inr s' \<Longrightarrow>
   (if 24 < length (Messages s) then pruned s s' else s' = s)"
  by (auto simp: pruneHard_cases pruned_hardPruned split: if_splits)

section \<open>The adaptive strategy\<close>

lemma pruneWithAI_request_failed:
  "client (buildPruningPrompt limits reason s) = Inl e \<Longrightarrow>
   pruneWithAI lib limits client reason s = Inl (RequestFailed e)"
  by (simp add: pruneWithAI_def)

lemma pruneWithAI_parse_failed:
  "client (buildPruningPrompt limits reason s) = Inr response \<Longrightarrow>
   parsePruningResponse lib response = Inl e \<Longrightarrow>
   pruneWithAI lib limits client reason s = Inl (ParseFailed e)"
  by (simp add: pruneWithAI_def)

lemma pruneWithAI_outcome:
  assumes "client (buildPruningPrompt limits reason s) = Inr response"
    and "parsePruningResponse lib response = Inr indices"
    and "pruneWithAI lib limits client reason s = Inr s'"
  shows "if indices \<noteq> [] then pruned s s' else s' = s"
  using assms
  by (auto simp: pruneWithAI_def removeMessagesByIndices_def pruned_def Let_def
           split: if_splits)

section \<open>Removal by index list (C10)\<close>

lemma buildToRemove_from:
  "foldl (\<lambda>toRemove idx. toRemove(idx := True)) f indices k \<longleftrightarrow> f k \<or> k \<in> set indices"
  by (induction indices arbitrary: f) auto

lemma buildToRemove_iff: "buildToRemove indices k \<longleftrightarrow> k \<in> set indices"
  by (simp add: buildToRemove_def buildToRemove_from)

lemma keepLoop_filter:
  "keepLoop toRemove i acc msgs =
     acc @ map snd (filter (\<lambda>p. \<not> toRemove (int (fst p))) (zip [i..<i + length msgs] msgs))"
proof (induction msgs arbitrary: i acc)
  case Nil
  then show ?case by simp
next
  case (Cons msg rest)
  have "i < i + length (msg # rest)" by simp
  then have "[i..<i + length (msg # rest)] = i # [Suc i..<i + length (msg # rest)]"
    by (rule upt_conv_Cons)
  moreover have "i + length (msg # rest) = Suc i + length rest" by simp
  ultimately have "[i..<i + length (msg # rest)] = i # [Suc i..<Suc i + length rest]"
    by metis
  then show ?case
    using Cons.IH [of "Suc i"] by simp
qed

lemma zip_filter_swap:
  "map fst (filter (\<lambda>p. P (snd p)) (zip xs ys)) = map snd (filter (\<lambda>p. P (fst p)) (zip ys xs))"
proof (induction xs arbitrary: ys)
  case Nil
  then show ?case by simp
next
  case (Cons x xs)
  then show ?case by (cases ys) auto
qed

lemma nths_as_filter:
  "nths xs A = map snd (filter (\<lambda>p. fst p \<in> A) (zip [0..<length xs] xs))"
  unfolding nths_def by (rule zip_filter_swap)

lemma keepLoop_nths:
  "keepLoop (buildToRemove indices) 0 [] msgs = nths msgs {i. int i \<notin> set indices}"
  by (simp add: keepLoop_filter nths_as_filter buildToRemove_iff)

text \<open>
  C10.  When the index list is no longer than the message sequence,
  \<open>removeMessagesByIndices\<close> returns normally, and the new sequence consists of exactly
  the messages whose position is not listed, in their original order (entries that are
  negative or beyond the end select no position and so have no effect).  When the list
  is longer than the sequence, the capacity \<open>len(Messages) - len(indices)\<close> is negative
  and the call panics.
\<close>

theorem removeMessagesByIndices_total_and_exact:
  "(length indices \<le> length (Messages s) \<longrightarrow>
      removeMessagesByIndices indices s
        = Inr (s\<lparr>Messages := nths (Messages s) {i. int i \<notin> set indices}\<rparr>))
   \<and> (length (Messages s) < length indices \<longrightarrow>
      removeMessagesByIndices indices s = Inl MakeSliceCapPanic)"
  by (simp add: removeMessagesByIndices_def keepLoop_nths)

text \<open>
  C10, at a store of four messages and the list \<open>[0, 2, 7, -1]\<close>: positions 0 and 2
  go, 7 and -1 select nothing; and at a store of one message and the list \<open>[0, 0]\<close>,
  which is longer than the store.
\<close>

theorem removeMessagesByIndices_witness:
  "length [0, 2, 7, -1 :: int] \<le> length (Messages (storeOf [question 0, question 1, question 2, question 3]))
   \<and> removeMessagesByIndices [0, 2, 7, -1] (storeOf [question 0, question 1, question 2, question 3])
       = Inr ((storeOf [question 0, question 1, question 2, question 3])
                \<lparr>Messages := [question 1, question 3]\<rparr>)
   \<and> length (Messages (storeOf [question 0])) < length [0, 0 :: int]
   \<and> removeMessagesByIndices [0, 0] (storeOf [question 0]) = Inl MakeSliceCapPanic"
  using removeMessagesByIndices_total_and_exact
          [of "[0, 2, 7, -1]" "storeOf [question 0, question 1, question 2, question 3]"]
        removeMessagesByIndices_total_and_exact [of "[0, 0]" "storeOf [question 0]"]
  by (simp add: storeOf_def nths_Cons)

section \<open>The estimate and the analysis snapshot (C9)\<close>

lemma checkEmergencyPrune_idle:
  "\<not> overEmergency (EstimateTokens s) (int (length (Messages s))) \<Longrightarrow>
   checkEmergencyPrune s = Inr s"
  by (simp add: checkEmergencyPrune_def)

text \<open>
  C9.  Two stores with the same messages have the same size estimate, whatever their
  analysis snapshots are; so \<open>ShouldPrune\<close> gives the same answer and reason on both,
  \<open>canUseAIPruning\<close> agrees on both, and the trigger of the emergency guard holds for
  both or for neither.
\<close>

theorem estimate_ignores_snapshot:
  assumes "Messages s = Messages s'"
  shows "EstimateTokens s = EstimateTokens s'
         \<and> ShouldPrune limits now s = ShouldPrune limits now s'
         \<and> canUseAIPruning limits s = canUseAIPruning limits s'
         \<and> overEmergency (EstimateTokens s) (int (length (Messages s)))
             = overEmergency (EstimateTokens s') (int (length (Messages s')))"
  using assms
  by (simp add: EstimateTokens_def ShouldPrune_def canUseAIPruning_def Let_def)

text \<open>
  C9, at a store of one large message, with and without an 80000-byte snapshot.
\<close>

theorem estimate_ignores_snapshot_witness:
  "Messages (withCache bigCache (storeOf [hugeMessage])) = Messages (storeOf [hugeMessage])
   \<and> AnalysisCache (withCache bigCache (storeOf [hugeMessage])) = Some bigCache
   \<and> AnalysisCache (storeOf [hugeMessage]) = None
   \<and> EstimateTokens (withCache bigCache (storeOf [hugeMessage])) = 37501
   \<and> EstimateTokens (storeOf [hugeMessage]) = 37501
   \<and> ShouldPrune DefaultPruningLimits 0 (withCache bigCache (storeOf [hugeMessage]))
       = ShouldPrune DefaultPruningLimits 0 (storeOf [hugeMessage])"
proof -
  have same: "Messages (withCache bigCache (storeOf [hugeMessage])) = Messages (storeOf [hugeMessage])"
    by (simp add: withCache_def)
  have "EstimateTokens (storeOf [hugeMessage]) = 37501"
    by (simp add: EstimateTokens_def storeOf_def hugeMessage_def)
  then show ?thesis
    using estimate_ignores_snapshot [OF same, of DefaultPruningLimits 0] same
    by (simp add: withCache_def storeOf_def)
qed

section \<open>AddMessage and long content (C7)\<close>

text \<open>
  \<open>AddMessage\<close> appends the content it is given, whatever its length.
\<close>

lemma AddMessage_verbatim:
  "Messages (AddMessage role content now s)
     = Messages s @ [\<lparr>Role = role, Content = content, Timestamp = now\<rparr>]"
  by (simp add: AddMessage_def Let_def)

text \<open>
  C7.  The claim is that content above the per-message cap (50000 bytes in the README,
  \<open>MaxMessageLength\<close> in the tests) is truncated and marked.  At a content of 51000
  bytes \<open>AddMessage\<close> stores all 51000 bytes, and the stored content holds no
  \<open>[Content truncated\<close> marker.
\<close>

theorem AddMessage_keeps_oversized_content:
  "Messages (AddMessage ''user'' (replicate 51000 CHR ''A'') 7 (NewStore ''/test/dir'' 0))
     = [\<lparr>Role = ''user'', Content = replicate 51000 CHR ''A'', Timestamp = 7\<rparr>]
   \<and> length (replicate 51000 CHR ''A'') = 51000
   \<and> \<not> Contains (replicate 51000 CHR ''A'') ''[Content truncated''"
proof -
  have "\<not> Contains (replicate 51000 CHR ''A'') ''[Content truncated''"
    using Contains_head [of "replicate 51000 CHR ''A''" "CHR ''[''" "''Content truncated''"]
    by auto
  then show ?thesis
    by (simp add: AddMessage_verbatim NewStore_def)
qed

section \<open>ShouldPreserve (C8)\<close>

text \<open>
  What \<open>ShouldPreserve\<close> computes on ASCII content: the position rule, the fence
  rule, and four of the five keywords.
\<close>

lemma ShouldPreserve_ascii:
  assumes "list_all (\<lambda>c. (of_char c :: nat) < 128) (Content msg)"
  shows "ShouldPreserve lib s msg index \<longleftrightarrow>
           index \<ge> int (length (Messages s)) - 4
           \<or> Contains (Content msg) fence
           \<or> Contains (map lowerASCII (Content msg)) ''analysis''
           \<or> Contains (map lowerASCII (Content msg)) ''file tree''
           \<or> Contains (map lowerASCII (Content msg)) ''structure''
           \<or> Contains (map lowerASCII (Content msg)) ''architecture''"
  using assms README_never_found [of "Content msg"]
  by (simp add: ShouldPreserve_def ToLower_def preserveKeywords_def)

text \<open>
  C8.  The claim is that a message whose lowered content contains \<open>readme\<close> is
  preserved.  At position 0 of a store of ten messages, the content
  \<open>See the README for setup\<close> has \<open>readme\<close> in its lowered form, and \<open>ShouldPreserve\<close>
  returns false: the keyword list holds \<open>README\<close> in capitals and is compared with the
  lowered content.
\<close>

theorem ShouldPreserve_misses_readme:
  "Contains (ToLower lib ''See the README for setup'') ''readme''
   \<and> \<not> ShouldPreserve lib (storeOf (map question [0..<10]))
         \<lparr>Role = ''assistant'', Content = ''See the README for setup'', Timestamp = 0\<rparr> 0"
  by code_simp

section \<open>pruneHard and leading system messages (C2, C3)\<close>

text \<open>
  What does hold under the default limits: the messages kept are a suffix of the
  sequence; at least 4 of them survive when the leading system run has at most 20
  messages; and without a leading system run exactly the last 24 survive.
\<close>

lemma Messages_hardPruned:
  "Messages (hardPruned s)
     = drop (skipSystem (Messages s) 0 + (length (Messages s) - 24)) (Messages s)"
  by (simp add: hardPruned_def Let_def)

lemma pruneHard_keeps_four:
  assumes "skipSystem (Messages s) 0 \<le> 20" and "4 \<le> length (Messages s)"
    and "pruneHard DefaultPruningLimits s = Inr s'"
  shows "4 \<le> length (Messages s')"
  using assms
  by (auto simp: pruneHard_cases Messages_hardPruned split: if_splits)

lemma pruneHard_without_system_run:
  assumes "skipSystem (Messages s) 0 = 0" and "24 < length (Messages s)"
  shows "pruneHard DefaultPruningLimits s = Inr (hardPruned s)
         \<and> Messages (hardPruned s) = drop (length (Messages s) - 24) (Messages s)
         \<and> length (Messages (hardPruned s)) = 24"
  using assms
  by (simp add: pruneHard_cases Messages_hardPruned)

text \<open>
  C2.  The claim is that \<open>pruneHard\<close> never leaves fewer than 4 messages of a store
  that had at least 4.  At a store of 25 messages that begins with 22 system messages,
  \<open>pruneHard\<close> cuts at position \<open>22 + 1\<close> and leaves 2 messages; at a store of 25
  system messages the cut position is beyond the end and \<open>pruneHard\<close> panics.
\<close>

theorem pruneHard_below_four_messages:
  "length (Messages (storeOf (replicate 22 systemMessage @ map question [1..<4]))) = 25
   \<and> pruneHard DefaultPruningLimits (storeOf (replicate 22 systemMessage @ map question [1..<4]))
       = Inr ((storeOf [question 2, question 3])
                \<lparr>Metadata := \<lparr>TotalMessages = 2, TotalTokensEstimate = 4, PruneCount = 1\<rparr>\<rparr>)
   \<and> pruneHard DefaultPruningLimits (storeOf (replicate 25 systemMessage)) = Inl SliceBoundsPanic"
  by code_simp

text \<open>
  C3.  The claim is that the leading system run is kept and exactly the excess
  messages after it are removed.  At a store of one system message followed by the
  questions 1 to 24 (excess 1), \<open>pruneHard\<close> leaves the questions 2 to 24: question 1
  is removed, and so is the system message.
\<close>

theorem pruneHard_drops_system_run:
  "pruneHard DefaultPruningLimits (storeOf (systemMessage # map question [1..<25]))
     = Inr ((storeOf (map question [2..<25]))
              \<lparr>Metadata := \<lparr>TotalMessages = 23, TotalTokensEstimate = 46, PruneCount = 1\<rparr>\<rparr>)"
  by code_simp

section \<open>Metadata agrees with the messages (C5)\<close>

lemma inSync_NewStore: "inSync (NewStore directory now)"
  by (simp add: inSync_def NewStore_def EstimateTokens_def)

lemma inSync_AddMessage: "inSync (AddMessage role content now s)"
  by (simp add: inSync_def AddMessage_def Let_def EstimateTokens_def)

lemma inSync_Reset: "inSync (Reset s)"
  by (simp add: inSync_def Reset_def EstimateTokens_def)

lemma inSync_Save: "inSync s \<Longrightarrow> inSync (Save now s)"
  by (simp add: inSync_def Save_def EstimateTokens_def)

lemma inSync_Analyze: "inSync s \<Longrightarrow> Analyze scan now s = Inr s' \<Longrightarrow> inSync s'"
  by (auto simp: inSync_def Analyze_def AnalyzeDirectory_def EstimateTokens_def
           split: sum.splits)

lemma inSync_hardPruned: "inSync (hardPruned s)"
  by (simp add: inSync_def hardPruned_def Let_def EstimateTokens_tokensOf)

lemma inSync_pruneHard:
  "inSync s \<Longrightarrow> pruneHard DefaultPruningLimits s = Inr s' \<Longrightarrow> inSync s'"
  by (auto simp: pruneHard_cases inSync_hardPruned split: if_splits)

lemma inSync_pruneWithAI:
  "inSync s \<Longrightarrow> pruneWithAI lib limits client reason s = Inr s' \<Longrightarrow> inSync s'"
  by (auto simp: pruneWithAI_def removeMessagesByIndices_def inSync_def Let_def
                 EstimateTokens_def
           split: sum.splits if_splits)

lemma inSync_Prune:
  "inSync s \<Longrightarrow> Prune lib DefaultPruningLimits client now s = Inr s' \<Longrightarrow> inSync s'"
  by (auto simp: Prune_def split: prod.splits if_splits option.splits sum.splits
           dest: inSync_pruneHard inSync_pruneWithAI)

lemma inSync_checkAndPrune:
  "inSync s \<Longrightarrow> checkAndPrune lib client now now' s = Inr s' \<Longrightarrow> inSync s'"
  by (auto simp: checkAndPrune_def split: if_splits dest: inSync_Prune)

lemma inSync_cleared:
  "inSync s \<Longrightarrow> inSync (s\<lparr>AnalysisCache := None, LastAnalysisAt := None\<rparr>)"
  by (simp add: inSync_def EstimateTokens_def)

lemma inSync_checkEmergencyPrune:
  "inSync s \<Longrightarrow> checkEmergencyPrune s = Inr s' \<Longrightarrow> inSync s'"
  by (auto simp: checkEmergencyPrune_def Let_def
           split: if_splits option.splits
           dest: inSync_pruneHard inSync_cleared)

lemma inSync_applyMutation:
  "inSync s \<Longrightarrow> applyMutation m s = Inr s' \<Longrightarrow> inSync s'"
  by (cases m)
     (auto simp: inSync_AddMessage inSync_Reset
           dest: inSync_pruneHard inSync_pruneWithAI inSync_Prune inSync_checkAndPrune
                 inSync_checkEmergencyPrune inSync_Analyze inSync_Save)

text \<open>
  A query that returns leaves the metadata in agreement with the messages, whatever
  store it started from: the two appended messages recompute both fields, and the
  guard and the pruner keep them.
\<close>

lemma inSync_warnOnly:
  "inSync s \<Longrightarrow> (\<And>s'. outcome = Inr s' \<Longrightarrow> inSync s') \<Longrightarrow>
   warnOnly s outcome = Inr s'' \<Longrightarrow> inSync s''"
  by (auto simp: warnOnly_def split: sum.splits if_splits)

lemma inSync_Query:
  assumes "Query lib client respond persist clock userQuery s = Inr (response, s')"
  shows "inSync s'"
proof -
  from assms obtain s1 s4 s5 where
    s4: "warnOnly (AddMessage ''assistant'' response (atAssistantMessage clock)
            (AddMessage ''user'' userQuery (atUserMessage clock) s1))
          (checkEmergencyPrune (AddMessage ''assistant'' response (atAssistantMessage clock)
            (AddMessage ''user'' userQuery (atUserMessage clock) s1))) = Inr s4"
    and s5: "warnOnly s4 (checkAndPrune lib client (atShouldPrune clock) (atPrune clock) s4) = Inr s5"
    and s': "s' = Save (atSave clock) s5"
    by (auto simp: Query_def Let_def split: sum.splits option.splits)
  have "inSync s4"
    using s4 inSync_AddMessage inSync_checkEmergencyPrune
    by (blast intro: inSync_warnOnly)
  then have "inSync s5"
    using s5 inSync_checkAndPrune
    by (blast intro: inSync_warnOnly)
  then show ?thesis
    using s' by (simp add: inSync_Save)
qed

text \<open>
  C5.  In every store a manager can hold (a new store, changed by any sequence of
  appended messages, deterministic or adaptive prunes, emergency-guard runs, cached
  analyses, resets and saves), \<open>Metadata.TotalMessages\<close> is the number of messages and
  \<open>Metadata.TotalTokensEstimate\<close> is \<open>EstimateTokens\<close> of the store.
\<close>

theorem metadata_in_sync:
  assumes "reachable s"
  shows "TotalMessages (Metadata s) = int (length (Messages s))
         \<and> TotalTokensEstimate (Metadata s) = EstimateTokens s"
proof -
  have "inSync s"
    using assms
  proof (induction rule: reachable.induct)
    case (fresh directory now)
    show ?case by (rule inSync_NewStore)
  next
    case (step s m s')
    then show ?case by (blast intro: inSync_applyMutation)
  qed
  then show ?thesis by (simp add: inSync_def)
qed

text \<open>
  C5, at a new store after one appended message and one cached analysis.
\<close>

theorem metadata_in_sync_witness:
  "reachable (withCache bigCache (AddMessage ''user'' ''hello'' 3 (NewStore ''/test/dir'' 0)))
   \<and> TotalMessages (Metadata (withCache bigCache (AddMessage ''user'' ''hello'' 3 (NewStore ''/test/dir'' 0)))) = 1
   \<and> TotalTokensEstimate (Metadata (withCache bigCache (AddMessage ''user'' ''hello'' 3 (NewStore ''/test/dir'' 0)))) = 1"
proof -
  let ?s1 = "AddMessage ''user'' ''hello'' 3 (NewStore ''/test/dir'' 0)"
  have "reachable (NewStore ''/test/dir'' 0)"
    by (rule reachable.fresh)
  then have "reachable ?s1"
    by (rule reachable.step [where m = "DoAddMessage ''user'' ''hello'' 3"]) simp
  then have r: "reachable (withCache bigCache ?s1)"
    by (rule reachable.step [where m = "DoAnalyze (Inr bigCache) 0"])
       (simp add: Analyze_def AnalyzeDirectory_def withCache_def)
  show ?thesis
    using metadata_in_sync [OF r] r
    by (simp add: withCache_def AddMessage_def NewStore_def EstimateTokens_def Let_def)
qed

section \<open>Fallback of the adaptive strategy (C6)\<close>

text \<open>
  When \<open>Prune\<close> attempts the adaptive strategy and the attempt fails, because the
  request fails or because the response does not parse, \<open>Prune\<close> returns what
  \<open>pruneHard\<close> returns on the same store.
\<close>

lemma Prune_fallback_is_pruneHard:
  assumes should: "ShouldPrune limits now s = (True, reason)"
    and can: "canUseAIPruning limits s"
    and fails: "client (buildPruningPrompt limits reason s) = Inl e
                \<or> (\<exists>response. client (buildPruningPrompt limits reason s) = Inr response
                      \<and> parsePruningResponse lib response = Inl e)"
  shows "Prune lib limits (Some client) now s = pruneHard limits s"
proof -
  from fails obtain err where "pruneWithAI lib limits client reason s = Inl err" and "\<not> isPanic err"
    using pruneWithAI_request_failed pruneWithAI_parse_failed by fastforce
  then show ?thesis
    using should can by (simp add: Prune_def)
qed

text \<open>
  C6.  The claim is that a failed adaptive attempt is answered by the deterministic
  strategy, so that the pruning call does not fail the query.  At a store of 40
  messages that begins with 25 system messages the store should be pruned (soft
  limit), the adaptive strategy is attempted and fails, once on the request and once
  on the response, and the fallback \<open>pruneHard\<close> panics on the slice
  \<open>Messages[25+16:]\<close>; nothing recovers the panic.  A query on 38 such messages, which
  appends two more, ends in the same panic instead of returning its answer.
\<close>

theorem Prune_fallback_panics:
  "ShouldPrune DefaultPruningLimits 0 (storeOf (replicate 25 systemMessage @ map question [0..<15]))
     = (True, SoftMessages 40 40)
   \<and> canUseAIPruning DefaultPruningLimits (storeOf (replicate 25 systemMessage @ map question [0..<15]))
   \<and> pruneWithAI exampleLib DefaultPruningLimits failingClient (SoftMessages 40 40)
         (storeOf (replicate 25 systemMessage @ map question [0..<15]))
       = Inl (RequestFailed ''connection refused'')
   \<and> Prune exampleLib DefaultPruningLimits (Some failingClient) 0
         (storeOf (replicate 25 systemMessage @ map question [0..<15]))
       = Inl SliceBoundsPanic
   \<and> pruneWithAI exampleLib DefaultPruningLimits babblingClient (SoftMessages 40 40)
         (storeOf (replicate 25 systemMessage @ map question [0..<15]))
       = Inl (ParseFailed ''invalid character'')
   \<and> Prune exampleLib DefaultPruningLimits (Some babblingClient) 0
         (storeOf (replicate 25 systemMessage @ map question [0..<15]))
       = Inl SliceBoundsPanic
   \<and> Query exampleLib (Some failingClient) (\<lambda>request. Inr ''answer'') (\<lambda>file. None)
         exampleClock ''hello'' (storeOf (replicate 25 systemMessage @ map question [0..<13]))
       = Inl SliceBoundsPanic"
  by code_simp

section \<open>Metadata after a successful Prune (C4)\<close>

text \<open>
  C4, as stated, fails: a store whose single message is 31 days old should be pruned
  (age), \<open>Prune\<close> succeeds, and the store, with its prune counter, is unchanged,
  because \<open>pruneHard\<close> returns at once on a store of at most 24 messages.
\<close>

theorem Prune_success_counterexample:
  "fst (ShouldPrune DefaultPruningLimits thirtyOneDays (storeOf [question 0]))
   \<and> Prune exampleLib DefaultPruningLimits None thirtyOneDays (storeOf [question 0])
       = Inr (storeOf [question 0])
   \<and> \<not> PruneCount (Metadata (storeOf [question 0]))
         = PruneCount (Metadata (storeOf [question 0])) + 1"
  by code_simp

text \<open>
  C4, amended.  On a store that should be pruned, a successful \<open>Prune\<close> under the
  default limits either rewrites the store, and then \<open>TotalMessages\<close> is the number of
  messages and \<open>PruneCount\<close> has grown by exactly 1, or leaves the store as it was.
  It rewrites the store exactly when the deterministic strategy runs on more than 24
  messages, or the adaptive strategy receives a non-empty index list.
\<close>

theorem Prune_success_metadata:
  assumes should: "fst (ShouldPrune DefaultPruningLimits now s)"
    and ok: "Prune lib DefaultPruningLimits client now s = Inr s'"
  shows "if pruneRewrites lib client now s
         then TotalMessages (Metadata s') = int (length (Messages s'))
              \<and> PruneCount (Metadata s') = PruneCount (Metadata s) + 1
         else s' = s"
proof -
  let ?L = DefaultPruningLimits
  obtain reason where sp: "ShouldPrune ?L now s = (True, reason)"
    using should by (cases "ShouldPrune ?L now s") auto
  have target: "TargetMessages ?L = 24"
    by (simp add: DefaultPruningLimits_def)
  have hard: "pruneHard ?L s = Inr s' \<Longrightarrow>
              (if 24 < length (Messages s) then pruned s s' else s' = s)"
    by (rule pruneHard_outcome)
  have goal: "(if pruneRewrites lib client now s then pruned s s' else s' = s)"
  proof (cases client)
    case None
    then have "pruneHard ?L s = Inr s'"
      using ok sp by (simp add: Prune_def)
    then show ?thesis
      using hard None by (simp add: pruneRewrites_def target)
  next
    case (Some c)
    show ?thesis
    proof (cases "canUseAIPruning ?L s")
      case False
      then have "pruneHard ?L s = Inr s'"
        using ok sp Some by (simp add: Prune_def)
      then show ?thesis
        using hard Some False by (simp add: pruneRewrites_def target)
    next
      case True
      show ?thesis
      proof (cases "c (buildPruningPrompt ?L reason s)")
        case (Inl e)
        then have "pruneWithAI lib ?L c reason s = Inl (RequestFailed e)"
          by (rule pruneWithAI_request_failed)
        then have "pruneHard ?L s = Inr s'"
          using ok sp Some True by (simp add: Prune_def)
        then show ?thesis
          using hard Some True Inl sp by (simp add: pruneRewrites_def target)
      next
        case (Inr response)
        show ?thesis
        proof (cases "parsePruningResponse lib response")
          case (Inl e)
          with Inr have "pruneWithAI lib ?L c reason s = Inl (ParseFailed e)"
            by (simp add: pruneWithAI_parse_failed)
          then have "pruneHard ?L s = Inr s'"
            using ok sp Some True by (simp add: Prune_def)
          then show ?thesis
            using hard Some True Inr Inl sp by (simp add: pruneRewrites_def target)
        next
          case parsed: (Inr indices)
          have "pruneWithAI lib ?L c reason s = Inr s'"
            using ok sp Some True
            by (auto simp: Prune_def pruneWithAI_def Inr parsed removeMessagesByIndices_def
                     split: if_splits sum.splits)
          then have "if indices \<noteq> [] then pruned s s' else s' = s"
            using pruneWithAI_outcome [of c ?L reason s response lib indices s'] Inr parsed
            by blast
          then show ?thesis
            using Some True Inr parsed sp by (simp add: pruneRewrites_def)
        qed
      qed
    qed
  qed
  then show ?thesis by (auto simp: pruned_def split: if_splits)
qed

text \<open>
  C4 amended, at a store of 40 messages: the deterministic strategy without a client,
  and the adaptive strategy with a client that answers \<open>[0, 1]\<close>.
\<close>

theorem Prune_success_witness:
  "fst (ShouldPrune DefaultPruningLimits 0 (storeOf (map question [0..<40])))
   \<and> pruneRewrites exampleLib None 0 (storeOf (map question [0..<40]))
   \<and> Prune exampleLib DefaultPruningLimits None 0 (storeOf (map question [0..<40]))
       = Inr ((storeOf (map question [16..<40]))
                \<lparr>Metadata := \<lparr>TotalMessages = 24, TotalTokensEstimate = 48, PruneCount = 1\<rparr>\<rparr>)
   \<and> pruneRewrites exampleLib (Some answeringClient) 0 (storeOf (map question [0..<40]))
   \<and> Prune exampleLib DefaultPruningLimits (Some answeringClient) 0 (storeOf (map question [0..<40]))
       = Inr ((storeOf (map question [2..<40]))
                \<lparr>Metadata := \<lparr>TotalMessages = 38, TotalTokensEstimate = 76, PruneCount = 1\<rparr>\<rparr>)"
proof -
  let ?s = "storeOf (map question [0..<40])"
  let ?h = "(storeOf (map question [16..<40]))
              \<lparr>Metadata := \<lparr>TotalMessages = 24, TotalTokensEstimate = 48, PruneCount = 1\<rparr>\<rparr>"
  let ?a = "(storeOf (map question [2..<40]))
              \<lparr>Metadata := \<lparr>TotalMessages = 38, TotalTokensEstimate = 76, PruneCount = 1\<rparr>\<rparr>"
  have should: "fst (ShouldPrune DefaultPruningLimits 0 ?s)"
    by code_simp
  have hard: "Prune exampleLib DefaultPruningLimits None 0 ?s = Inr ?h"
    by code_simp
  have adaptive: "Prune exampleLib DefaultPruningLimits (Some answeringClient) 0 ?s = Inr ?a"
    by code_simp
  have r1: "pruneRewrites exampleLib None 0 ?s"
    by code_simp
  have r2: "pruneRewrites exampleLib (Some answeringClient) 0 ?s"
    by code_simp
  show ?thesis
    using Prune_success_metadata [OF should hard] Prune_success_metadata [OF should adaptive]
      should hard adaptive r1 r2
    by simp
qed

section \<open>The emergency guard and a large snapshot (C1)\<close>

text \<open>
  Under the hypotheses of the claim, read with \<open>EstimateTokens\<close> as the total,
  clearing the snapshot leaves the estimate as it was, so the second check of the guard
  always holds and \<open>pruneHard\<close> runs on the cleared store.
\<close>

lemma checkEmergencyPrune_after_clearing:
  assumes over: "EstimateTokens s > emergencyTokens"
    and half: "estimateAnalysisCacheTokens s > EstimateTokens s div 2"
  shows "EstimateTokens (s\<lparr>AnalysisCache := None, LastAnalysisAt := None\<rparr>) = EstimateTokens s
         \<and> checkEmergencyPrune s
             = pruneHard DefaultPruningLimits (s\<lparr>AnalysisCache := None, LastAnalysisAt := None\<rparr>)"
proof -
  let ?c = "s\<lparr>AnalysisCache := None, LastAnalysisAt := None\<rparr>"
  have nonneg: "0 \<le> EstimateTokens s"
    by (simp add: EstimateTokens_tokensOf tokensOf_nonneg)
  have cached: "AnalysisCache s \<noteq> None"
  proof
    assume "AnalysisCache s = None"
    then have "estimateAnalysisCacheTokens s = 0"
      by (simp add: estimateAnalysisCacheTokens_def)
    with half nonneg show False by simp
  qed
  have same: "EstimateTokens ?c = EstimateTokens s"
    by (simp add: EstimateTokens_def)
  have "checkEmergencyPrune s = pruneHard DefaultPruningLimits ?c"
    using over half cached same
    by (auto simp: checkEmergencyPrune_def overEmergency_def Let_def split: option.splits)
  with same show ?thesis by simp
qed

text \<open>
  C1.  The claim is that the guard clears a snapshot that dominates an oversized
  store and brings the total to the ceiling or below, or else reduces it by pruning.
  At a store of one message of 150004 bytes (estimate 37501, ceiling 37500) with a
  snapshot estimated at 22859, the guard clears the snapshot and returns with the
  estimate still 37501: clearing changes nothing in \<open>EstimateTokens\<close>, and
  \<open>pruneHard\<close> removes nothing from a single message.  At the store of
  \<open>TestEmergencyPruneWithHugeAnalysisCache\<close> (no message, a snapshot estimated at
  107146) \<open>EstimateTokens\<close> is 0, the guard does not fire and the snapshot stays.
\<close>

theorem emergency_guard_leaves_total_over_ceiling:
  "emergencyTokens < EstimateTokens (withCache bigCache (storeOf [hugeMessage]))
   \<and> EstimateTokens (withCache bigCache (storeOf [hugeMessage])) div 2
       < estimateAnalysisCacheTokens (withCache bigCache (storeOf [hugeMessage]))
   \<and> checkEmergencyPrune (withCache bigCache (storeOf [hugeMessage])) = Inr (storeOf [hugeMessage])
   \<and> EstimateTokens (storeOf [hugeMessage]) = 37501
   \<and> EstimateTokens (withCache bigCache (storeOf [hugeMessage])) = 37501
   \<and> emergencyTokens = 37500
   \<and> estimateAnalysisCacheTokens (withCache testCache (storeOf [])) = 107146
   \<and> EstimateTokens (withCache testCache (storeOf [])) = 0
   \<and> checkEmergencyPrune (withCache testCache (storeOf [])) = Inr (withCache testCache (storeOf []))
   \<and> AnalysisCache (withCache testCache (storeOf [])) = Some testCache"
  by (simp add: EstimateTokens_def checkEmergencyPrune_def estimateAnalysisCacheTokens_def
        overEmergency_def emergencyTokens_def emergencyMessages_def withCache_def storeOf_def
        hugeMessage_def bigCache_def testCache_def pruneHard_def DefaultPruningLimits_def)


end
